theory Spec2Isabelle
  imports Main
begin

section \<open>Outcomes and constraint kinds (popper.py, lines 12-30)\<close>

text \<open>
  The classes \<open>Outcome\<close> and \<open>Con\<close> of popper.py are namespaces of three and four
  distinct string constants. They are embedded as datatypes; the constructors carry the
  class name as a prefix, as the source writes \<open>Outcome.ALL\<close>, because \<open>ALL\<close> and
  \<open>SOME\<close> are binder syntax of HOL.
\<close>

datatype Outcome = Outcome_ALL | Outcome_SOME | Outcome_NONE

datatype Con = Con_GENERALISATION | Con_SPECIALISATION | Con_REDUNDANCY | Con_BANISH

datatype py_error = KeyError

text \<open>A confusion matrix is the tuple \<open>(tp, fn, tn, fp)\<close> of Python integers.\<close>

type_synonym conf_matrix = "int \<times> int \<times> int \<times> int"

text \<open>The dictionary \<open>OUTCOME_TO_CONSTRAINTS\<close>, in the order it is written.\<close>

definition OUTCOME_TO_CONSTRAINTS :: "((Outcome \<times> Outcome) \<times> Con list) list" where
  "OUTCOME_TO_CONSTRAINTS =
    [((Outcome_ALL, Outcome_NONE), [Con_BANISH]),
     ((Outcome_ALL, Outcome_SOME), [Con_GENERALISATION]),
     ((Outcome_SOME, Outcome_NONE), [Con_SPECIALISATION]),
     ((Outcome_SOME, Outcome_SOME), [Con_SPECIALISATION, Con_GENERALISATION]),
     ((Outcome_NONE, Outcome_NONE), [Con_SPECIALISATION, Con_REDUNDANCY]),
     ((Outcome_NONE, Outcome_SOME), [Con_SPECIALISATION, Con_REDUNDANCY, Con_GENERALISATION])]"

text \<open>
  \<open>OUTCOME_TO_CONSTRAINTS[key]\<close>: a key that is absent raises \<open>KeyError\<close>.
\<close>

definition lookup_constraints :: "Outcome \<times> Outcome \<Rightarrow> py_error + Con list" where
  "lookup_constraints key =
     (case map_of OUTCOME_TO_CONSTRAINTS key of
        None \<Rightarrow> Inl KeyError
      | Some kinds \<Rightarrow> Inr kinds)"

section \<open>Outcome classification (popper.py, lines 51-67)\<close>

fun decide_outcome :: "conf_matrix \<Rightarrow> Outcome \<times> Outcome" where
  "decide_outcome (tp, fn, tn, fp) =
     (let positive_outcome =
            (if fn = 0 then Outcome_ALL
             else if tp = 0 \<and> fn > 0 then Outcome_NONE
             else Outcome_SOME);
          negative_outcome =
            (if fp = 0 then Outcome_NONE
             else Outcome_SOME)
      in (positive_outcome, negative_outcome))"

text \<open>
  Lines 70-76 of \<open>build_rules\<close>: a negative outcome of \<open>ALL\<close> is replaced by \<open>SOME\<close>,
  then the pair is looked up in the table.
\<close>

definition remap_negative :: "Outcome \<Rightarrow> Outcome" where
  "remap_negative negative_outcome =
     (if negative_outcome = Outcome_ALL then Outcome_SOME else negative_outcome)"

fun select_constraints :: "Outcome \<times> Outcome \<Rightarrow> py_error + Con list" where
  "select_constraints (positive_outcome, negative_outcome) =
     lookup_constraints (positive_outcome, remap_negative negative_outcome)"

section \<open>Clauses\<close>

text \<open>
  Modelled from the spec: the class \<open>Literal\<close> of popper.core is not among the sources.
  The spec's data model gives a literal a predicate symbol, an ordered argument list, an
  arity and a \<open>meta\<close> flag; the sources read \<open>literal.meta\<close> only. A clause is the pair
  \<open>(head, body)\<close> with an ordered body, as every source function unpacks it.
\<close>

record Literal =
  predicate :: string
  arguments :: "string list"
  arity :: nat
  meta :: bool

type_synonym Clause = "Literal \<times> Literal list"

text \<open>
  A Python set that the code later iterates over is held as a list without duplicates;
  \<open>s.update(xs)\<close> adds the elements of \<open>xs\<close> that are not yet present.
\<close>

definition set_update :: "'a list \<Rightarrow> 'a list \<Rightarrow> 'a list" where
  "set_update s xs = fold List.insert xs s"

section \<open>Grounding of constraints (popper.py, lines 32-45)\<close>

text \<open>
  \<open>grounder.find_bindings\<close> (popper.asp) and \<open>Grounding.ground_clause\<close> (popper.core) are
  not among the sources; \<open>ground_rules\<close> takes them as parameters. The result \<open>out\<close> is a
  Python set that is only added to, so it is a HOL set and \<open>out.add\<close> is \<open>insert\<close>.
\<close>

definition ground_rules ::
  "(Clause \<Rightarrow> int \<Rightarrow> int \<Rightarrow> 'a list) \<Rightarrow> (Clause \<Rightarrow> 'a \<Rightarrow> 'g) \<Rightarrow> int \<Rightarrow> int \<Rightarrow> Clause list \<Rightarrow> 'g set"
where
  "ground_rules find_bindings ground_clause max_clauses max_vars clauses =
     foldl (\<lambda>out clause.
        case clause of (head, body) \<Rightarrow>
          let assignments = find_bindings clause max_clauses max_vars;
              body' = filter (\<lambda>literal. \<not> meta literal) body
          in foldl (\<lambda>out assignment. insert (ground_clause (head, body') assignment) out)
               out assignments)
       {} clauses"

section \<open>The tester (popper/tester.py)\<close>

text \<open>
  The fields of \<open>Tester\<close> that its methods read and write: the example indices \<open>pos\<close> and
  \<open>neg\<close>, the set \<open>already_checked_redundant_literals\<close> of clause hashes and the dictionary
  \<open>seen_prog\<close> from a frozenset of clauses to its success set. \<open>redundant_literal_queries\<close>
  is a ghost field: the clauses for which \<open>redundant_literal\<close> was asked of the Prolog
  engine, latest first.
\<close>

record 'k Tester =
  pos :: "int list"
  neg :: "int list"
  already_checked_redundant_literals :: "'k set"
  seen_prog :: "Clause set \<Rightarrow> int set option"
  redundant_literal_queries :: "Clause list"

text \<open>
  The Prolog engine with test.pl, and \<open>Clause.clause_hash\<close> and \<open>Clause.is_separable\<close> of
  popper.core, are not among the sources. What the tester gets from them is taken as
  parameters: the hash of a clause, whether a clause is separable, the list \<open>Xs\<close> that the
  query \<open>success_set(Xs)\<close> binds while the given rules are asserted, and whether the queries
  \<open>redundant_literal\<close>, \<open>redundant_clause\<close> and \<open>non_functional\<close> have a solution.
\<close>

record 'k Evaluator =
  clause_hash :: "Clause \<Rightarrow> 'k"
  is_separable :: "Clause \<Rightarrow> bool"
  query_success_set :: "Clause list \<Rightarrow> int list"
  query_redundant_literal :: "Clause \<Rightarrow> bool"
  query_redundant_clause :: "Clause list \<Rightarrow> bool"
  query_non_functional :: "Clause list \<Rightarrow> bool"

text \<open>
  \<open>__init__\<close> with \<open>load_examples\<close>: for \<open>num_pos\<close> solutions of \<open>pos(X)\<close> and \<open>num_neg\<close>
  solutions of \<open>neg(X)\<close> the indices are \<open>1, ..., num_pos\<close> and \<open>-1, ..., -num_neg\<close>; the
  caches start empty.
\<close>

definition Tester_init :: "nat \<Rightarrow> nat \<Rightarrow> 'k Tester" where
  "Tester_init num_pos num_neg =
     \<lparr>pos = map int [1..<Suc num_pos],
      neg = map (\<lambda>i. - int i) [1..<Suc num_neg],
      already_checked_redundant_literals = {},
      seen_prog = Map.empty,
      redundant_literal_queries = []\<rparr>"

fun check_redundant_literal ::
  "'k Evaluator \<Rightarrow> Clause list \<Rightarrow> 'k Tester \<Rightarrow> Clause list \<times> 'k Tester"
where
  "check_redundant_literal E [] t = ([], t)"
| "check_redundant_literal E (clause # program) t =
     (let k = clause_hash E clause in
      if k \<in> already_checked_redundant_literals t
      then check_redundant_literal E program t
      else
        let t1 = t\<lparr>already_checked_redundant_literals :=
                      insert k (already_checked_redundant_literals t)\<rparr>;
            res = query_redundant_literal E clause;
            t2 = t1\<lparr>redundant_literal_queries := clause # redundant_literal_queries t1\<rparr>;
            (yielded, t3) = check_redundant_literal E program t2
        in (if res then clause # yielded else yielded, t3))"

definition check_redundant_clause :: "'k Evaluator \<Rightarrow> Clause list \<Rightarrow> bool" where
  "check_redundant_clause E program = query_redundant_clause E program"

definition is_non_functional :: "'k Evaluator \<Rightarrow> Clause list \<Rightarrow> bool" where
  "is_non_functional E program = query_non_functional E program"

definition success_set ::
  "'k Evaluator \<Rightarrow> Clause list \<Rightarrow> 'k Tester \<Rightarrow> int set \<times> 'k Tester"
where
  "success_set E rules t =
     (let prog_hash = set rules in
      case seen_prog t prog_hash of
        None \<Rightarrow>
          (let xs = set (query_success_set E rules)
           in (xs, t\<lparr>seen_prog := (seen_prog t)(prog_hash \<mapsto> xs)\<rparr>))
      | Some xs \<Rightarrow> (xs, t))"

text \<open>The loop \<open>for rule in rules: covered.update(self.success_set([rule]))\<close>.\<close>

fun covered_by_each ::
  "'k Evaluator \<Rightarrow> Clause list \<Rightarrow> int set \<Rightarrow> 'k Tester \<Rightarrow> int set \<times> 'k Tester"
where
  "covered_by_each E [] covered t = (covered, t)"
| "covered_by_each E (rule # rules) covered t =
     (let (xs, t') = success_set E [rule] t
      in covered_by_each E rules (covered \<union> xs) t')"

text \<open>Lines 102-107 of \<open>test\<close>: the examples the rules cover.\<close>

definition test_covered :: "'k Evaluator \<Rightarrow> Clause list \<Rightarrow> 'k Tester \<Rightarrow> int set \<times> 'k Tester" where
  "test_covered E rules t =
     (if list_all (is_separable E) rules
      then covered_by_each E rules {} t
      else success_set E rules t)"

definition test :: "'k Evaluator \<Rightarrow> Clause list \<Rightarrow> 'k Tester \<Rightarrow> conf_matrix \<times> 'k Tester" where
  "test E rules t =
     (let (covered, t') = test_covered E rules t;
          (tp, fn) = foldl (\<lambda>(tp, fn) p. if p \<in> covered then (tp + 1, fn) else (tp, fn + 1))
                       (0, 0) (pos t');
          (tn, fp) = foldl (\<lambda>(tn, fp) n. if n \<in> covered then (tn, fp + 1) else (tn + 1, fp))
                       (0, 0) (neg t')
      in ((tp, fn, tn, fp), t'))"

section \<open>Selection and construction of constraints (popper.py, lines 69-103)\<close>

text \<open>
  The class \<open>Constrain\<close> (popper.constrain) is not among the sources; its five methods are
  parameters, each returning the clauses it derives. \<open>before\<close> and \<open>min_clause\<close> are only
  passed through to them. Of the settings, the loop reads \<open>functional_test\<close> and
  \<open>max_literals\<close>; \<open>debug\<close> only controls printing, which is left out.
\<close>

record ('b, 'm) Constrain =
  generalisation_constraint :: "Clause list \<Rightarrow> 'b \<Rightarrow> 'm \<Rightarrow> Clause list"
  specialisation_constraint :: "Clause list \<Rightarrow> 'b \<Rightarrow> 'm \<Rightarrow> Clause list"
  redundancy_constraint :: "Clause list \<Rightarrow> 'b \<Rightarrow> 'm \<Rightarrow> Clause list"
  banish_constraint :: "Clause list \<Rightarrow> 'b \<Rightarrow> 'm \<Rightarrow> Clause list"
  redundant_literal_constraint :: "Clause \<Rightarrow> 'b \<Rightarrow> 'm \<Rightarrow> Clause list"

record Settings =
  functional_test :: bool
  max_literals :: int

text \<open>Lines 76-84: one batch of constraints for each kind the table selects.\<close>

definition outcome_rules ::
  "('b, 'm) Constrain \<Rightarrow> Clause list \<Rightarrow> 'b \<Rightarrow> 'm \<Rightarrow> Con list \<Rightarrow> Clause list"
where
  "outcome_rules constrainer program before min_clause kinds =
     foldl (\<lambda>rules constraint_type.
        if constraint_type = Con_GENERALISATION
        then set_update rules (generalisation_constraint constrainer program before min_clause)
        else if constraint_type = Con_SPECIALISATION
        then set_update rules (specialisation_constraint constrainer program before min_clause)
        else if constraint_type = Con_REDUNDANCY
        then set_update rules (redundancy_constraint constrainer program before min_clause)
        else if constraint_type = Con_BANISH
        then set_update rules (banish_constraint constrainer program before min_clause)
        else rules)
       [] kinds"

text \<open>
  Lines 90-91: every clause that \<open>check_redundant_literal\<close> yields adds its
  redundant-literal constraints.
\<close>

definition redundant_literal_rules ::
  "('b, 'm) Constrain \<Rightarrow> 'b \<Rightarrow> 'm \<Rightarrow> Clause list \<Rightarrow> Clause list \<Rightarrow> Clause list"
where
  "redundant_literal_rules constrainer before min_clause rules yielded =
     foldl (\<lambda>rules rule.
        set_update rules (redundant_literal_constraint constrainer rule before min_clause))
       rules yielded"

definition build_rules ::
  "Settings \<Rightarrow> ('b, 'm) Constrain \<Rightarrow> 'k Evaluator \<Rightarrow> 'k Tester \<Rightarrow> Clause list \<Rightarrow> 'b \<Rightarrow> 'm
     \<Rightarrow> Outcome \<times> Outcome \<Rightarrow> py_error + (Clause list \<times> 'k Tester)"
where
  "build_rules settings constrainer E tester program before min_clause outcome =
     (case select_constraints outcome of
        Inl e \<Rightarrow> Inl e
      | Inr kinds \<Rightarrow>
          let rules = outcome_rules constrainer program before min_clause kinds;
              rules = (if functional_test settings \<and> is_non_functional E program
                       then set_update rules
                              (generalisation_constraint constrainer program before min_clause)
                       else rules);
              (yielded, tester') = check_redundant_literal E program tester;
              rules = redundant_literal_rules constrainer before min_clause rules yielded;
              rules = (if check_redundant_clause E program
                       then set_update rules
                              (generalisation_constraint constrainer program before min_clause)
                       else rules)
          in Inr (rules, tester'))"

section \<open>The search loop (popper.py, lines 105-177)\<close>

fun calc_score :: "conf_matrix \<Rightarrow> int" where
  "calc_score (tp, fn, tn, fp) = tp + tn"

text \<open>
  \<open>ClingoSolver\<close> and \<open>ClingoGrounder\<close> (popper.asp) and \<open>generate_program\<close>
  (popper.generate) are not among the sources. The solver is a state of some type \<open>'s\<close>
  with the operations the loop calls on it; \<open>get_model\<close> returns \<open>None\<close> for a model that
  the test \<open>if not model\<close> takes as absent.
\<close>

record ('s, 'mo, 'b, 'm, 'a, 'g) Collaborators =
  update_number_of_literals :: "int \<Rightarrow> 's \<Rightarrow> 's"
  get_model :: "'s \<Rightarrow> 'mo option \<times> 's"
  add_ground_clauses :: "'g set \<Rightarrow> 's \<Rightarrow> 's"
  max_clauses :: "'s \<Rightarrow> int"
  max_vars :: "'s \<Rightarrow> int"
  generate_program :: "'mo \<Rightarrow> Clause list \<times> 'b \<times> 'm"
  find_bindings :: "Clause \<Rightarrow> int \<Rightarrow> int \<Rightarrow> 'a list"
  ground_clause :: "Clause \<Rightarrow> 'a \<Rightarrow> 'g"

text \<open>
  What the loop reads and writes: the solver, the tester, the local \<open>best_score\<close>, the entry
  \<open>args[PROG_KEY]\<close> of the caller's dictionary and the counter \<open>stats.total_programs\<close>.
\<close>

record ('k, 's) Run =
  solver :: 's
  tester :: "'k Tester"
  best_score :: "int option"
  args :: "(Clause list \<times> conf_matrix) option"
  total_programs :: int

text \<open>
  Lines 150-153: the update of the best program, under the test
  \<open>best_score == None or score > best_score\<close>.
\<close>

fun improves :: "int \<Rightarrow> int option \<Rightarrow> bool" where
  "improves score None = True"
| "improves score (Some best) = (score > best)"

definition update_best ::
  "Clause list \<Rightarrow> conf_matrix \<Rightarrow> int \<Rightarrow> ('k, 's) Run \<Rightarrow> ('k, 's) Run"
where
  "update_best program conf_matrix score st =
     (if improves score (best_score st)
      then st\<lparr>best_score := Some score, args := Some (program, conf_matrix)\<rparr>
      else st)"

text \<open>
  One pass through the body of \<open>while True\<close> after a model was obtained (lines 141-174):
  it returns from \<open>popper\<close>, goes on with the next pass, or raises.
\<close>

datatype 'st Flow = Return 'st | Next 'st | Raise py_error

definition loop_body ::
  "Settings \<Rightarrow> ('s, 'mo, 'b, 'm, 'a, 'g) Collaborators \<Rightarrow> ('b, 'm) Constrain \<Rightarrow> 'k Evaluator
     \<Rightarrow> 'mo \<Rightarrow> ('k, 's) Run \<Rightarrow> ('k, 's) Run Flow"
where
  "loop_body settings W constrainer E model st =
     (case generate_program W model of (program, before, min_clause) \<Rightarrow>
        let st = st\<lparr>total_programs := total_programs st + 1\<rparr>;
            (conf_matrix, tester') = test E program (tester st);
            st = st\<lparr>tester := tester'\<rparr>;
            score = calc_score conf_matrix;
            st = update_best program conf_matrix score st;
            outcome = decide_outcome conf_matrix
        in if outcome = (Outcome_ALL, Outcome_NONE) then Return st
           else
             (case build_rules settings constrainer E (tester st) program before min_clause
                     outcome of
                Inl e \<Rightarrow> Raise e
              | Inr (rules, tester'') \<Rightarrow>
                  let st = st\<lparr>tester := tester''\<rparr>;
                      rules = ground_rules (find_bindings W) (ground_clause W)
                                (max_clauses W (solver st)) (max_vars W (solver st)) rules
                  in Next (st\<lparr>solver := add_ground_clauses W rules (solver st)\<rparr>)))"

text \<open>
  The loop \<open>while True\<close> need not end, so it runs on fuel: the number of models it may ask
  for at one size.
\<close>

datatype 'st Result = Found 'st | Exhausted 'st | Failed py_error | Out_Of_Fuel

fun candidate_loop ::
  "nat \<Rightarrow> Settings \<Rightarrow> ('s, 'mo, 'b, 'm, 'a, 'g) Collaborators \<Rightarrow> ('b, 'm) Constrain \<Rightarrow> 'k Evaluator
     \<Rightarrow> ('k, 's) Run \<Rightarrow> ('k, 's) Run Result"
where
  "candidate_loop 0 settings W constrainer E st = Out_Of_Fuel"
| "candidate_loop (Suc fuel) settings W constrainer E st =
     (case get_model W (solver st) of
        (None, s) \<Rightarrow> Exhausted (st\<lparr>solver := s\<rparr>)
      | (Some model, s) \<Rightarrow>
          (case loop_body settings W constrainer E model (st\<lparr>solver := s\<rparr>) of
             Return st' \<Rightarrow> Found st'
           | Raise e \<Rightarrow> Failed e
           | Next st' \<Rightarrow> candidate_loop fuel settings W constrainer E st'))"

text \<open>The loop \<open>for size in range(1, settings.max_literals + 1)\<close>.\<close>

fun size_loop ::
  "nat \<Rightarrow> Settings \<Rightarrow> ('s, 'mo, 'b, 'm, 'a, 'g) Collaborators \<Rightarrow> ('b, 'm) Constrain \<Rightarrow> 'k Evaluator
     \<Rightarrow> int list \<Rightarrow> ('k, 's) Run \<Rightarrow> ('k, 's) Run Result"
where
  "size_loop fuel settings W constrainer E [] st = Exhausted st"
| "size_loop fuel settings W constrainer E (size' # sizes) st =
     (case candidate_loop fuel settings W constrainer E
             (st\<lparr>solver := update_number_of_literals W size' (solver st)\<rparr>) of
        Exhausted st' \<Rightarrow> size_loop fuel settings W constrainer E sizes st'
      | r \<Rightarrow> r)"

text \<open>
  \<open>popper\<close> from line 129 on, for the solver and the tester that lines 124-128 construct
  and the dictionary entry and counter the caller passes in. Line 126 copies
  \<open>tester.num_pos\<close> and \<open>tester.num_neg\<close> into the settings; tester.py defines no such
  attributes, only \<open>print_conf_matrix\<close> reads the copies, and the loop does not depend on
  them.
\<close>

definition popper ::
  "nat \<Rightarrow> Settings \<Rightarrow> ('s, 'mo, 'b, 'm, 'a, 'g) Collaborators \<Rightarrow> ('b, 'm) Constrain \<Rightarrow> 'k Evaluator
     \<Rightarrow> 's \<Rightarrow> 'k Tester \<Rightarrow> (Clause list \<times> conf_matrix) option \<Rightarrow> int \<Rightarrow> ('k, 's) Run Result"
where
  "popper fuel settings W constrainer E solver0 tester0 args0 total0 =
     size_loop fuel settings W constrainer E [1..max_literals settings]
       \<lparr>solver = solver0, tester = tester0, best_score = None, args = args0,
        total_programs = total0\<rparr>"

section \<open>Notions used in the properties\<close>

text \<open>The order on recorded best scores: no score yet is below every score.\<close>

fun score_le :: "int option \<Rightarrow> int option \<Rightarrow> bool" where
  "score_le None b = True"
| "score_le (Some x) None = False"
| "score_le (Some x) (Some y) = (x \<le> y)"

text \<open>
  The invariant of the search loop on the best score: it is below the number of examples,
  the score of a program that is complete and consistent.
\<close>

definition best_bounded :: "('k, 's) Run \<Rightarrow> bool" where
  "best_bounded st =
     (case best_score st of
        None \<Rightarrow> True
      | Some best \<Rightarrow> best < int (length (pos (tester st))) + int (length (neg (tester st))))"

text \<open>
  The invariant of the tester on the literal check: the clauses that \<open>redundant_literal\<close>
  was asked for have pairwise different hashes, all of them in the cache.
\<close>

definition checked_once :: "'k Evaluator \<Rightarrow> 'k Tester \<Rightarrow> bool" where
  "checked_once E t =
     (distinct (map (clause_hash E) (redundant_literal_queries t)) \<and>
      clause_hash E ` set (redundant_literal_queries t) \<subseteq> already_checked_redundant_literals t)"

section \<open>A small instance\<close>

text \<open>
  Three literals, one of them a meta literal, and collaborators on which the definitions
  can be evaluated: a solver that hands out the programs of a list, a tester with the
  positive examples 1 and 2 and the negative example -1 in which a clause with an empty
  body also covers the negative example, and a literal check that flags bodies of more than
  one literal.
\<close>

definition lit_f :: Literal where
  "lit_f = \<lparr>predicate = ''f'', arguments = [''A''], arity = 1, meta = False\<rparr>"

definition lit_g :: Literal where
  "lit_g = \<lparr>predicate = ''g'', arguments = [''A''], arity = 1, meta = False\<rparr>"

definition lit_lt :: Literal where
  "lit_lt = \<lparr>predicate = ''<'', arguments = [''C0'', ''C1''], arity = 2, meta = True\<rparr>"

text \<open>
  A grounder that makes its requests visible: \<open>requested_clause\<close> returns the clause it is
  called with as the only binding, and \<open>returned_binding\<close> instantiates to the binding.
\<close>

definition requested_clause :: "Clause \<Rightarrow> int \<Rightarrow> int \<Rightarrow> Clause list" where
  "requested_clause clause clauses_bound vars_bound = [clause]"

definition returned_binding :: "Clause \<Rightarrow> Clause \<Rightarrow> Clause" where
  "returned_binding clause assignment = assignment"

definition example_world :: "(Clause list list, Clause list, unit, unit, unit, Clause) Collaborators" where
  "example_world =
     \<lparr>update_number_of_literals = (\<lambda>n s. s),
      get_model = (\<lambda>s. case s of [] \<Rightarrow> (None, []) | m # ms \<Rightarrow> (Some m, ms)),
      add_ground_clauses = (\<lambda>g s. s),
      max_clauses = (\<lambda>s. 2),
      max_vars = (\<lambda>s. 2),
      generate_program = (\<lambda>m. (m, (), ())),
      find_bindings = (\<lambda>c mc mv. [()]),
      ground_clause = (\<lambda>c a. c)\<rparr>"

definition example_evaluator :: "Clause Evaluator" where
  "example_evaluator =
     \<lparr>clause_hash = (\<lambda>c. c),
      is_separable = (\<lambda>c. True),
      query_success_set = (\<lambda>rules. if list_all (\<lambda>c. snd c \<noteq> []) rules then [1, 2] else [1, 2, -1]),
      query_redundant_literal = (\<lambda>c. length (snd c) > 1),
      query_redundant_clause = (\<lambda>rules. False),
      query_non_functional = (\<lambda>rules. False)\<rparr>"

definition example_constrainer :: "(unit, unit) Constrain" where
  "example_constrainer =
     \<lparr>generalisation_constraint = (\<lambda>p b m. p),
      specialisation_constraint = (\<lambda>p b m. []),
      redundancy_constraint = (\<lambda>p b m. []),
      banish_constraint = (\<lambda>p b m. []),
      redundant_literal_constraint = (\<lambda>c b m. [c])\<rparr>"

definition example_settings :: Settings where
  "example_settings = \<lparr>functional_test = False, max_literals = 2\<rparr>"

definition example_tester :: "Clause Tester" where
  "example_tester =
     \<lparr>pos = [1, 2], neg = [-1], already_checked_redundant_literals = {},
      seen_prog = Map.empty, redundant_literal_queries = []\<rparr>"

definition example_run :: "(Clause, Clause list list) Run" where
  "example_run =
     \<lparr>solver = [], tester = example_tester, best_score = None, args = None,
      total_programs = 0\<rparr>"

section \<open>Properties of the outcome classifier and of the constraint table\<close>

text \<open>
  Claim C1. For every confusion matrix \<open>(tp, fn, tn, fp)\<close>, and so for every one of
  non-negative integers, \<open>decide_outcome\<close> gives the positive outcome \<open>ALL\<close> exactly when
  \<open>fn = 0\<close>, \<open>NONE\<close> exactly when \<open>tp = 0\<close> and \<open>fn > 0\<close>, and \<open>SOME\<close> exactly in
  the remaining case; the negative outcome is \<open>NONE\<close> exactly when \<open>fp = 0\<close> and \<open>SOME\<close>
  exactly when it is not.
\<close>

theorem decide_outcome_rule:
  "(fst (decide_outcome (tp, fn, tn, fp)) = Outcome_ALL \<longleftrightarrow> fn = 0) \<and>
   (fst (decide_outcome (tp, fn, tn, fp)) = Outcome_NONE \<longleftrightarrow> tp = 0 \<and> fn > 0) \<and>
   (fst (decide_outcome (tp, fn, tn, fp)) = Outcome_SOME \<longleftrightarrow> fn \<noteq> 0 \<and> \<not> (tp = 0 \<and> fn > 0)) \<and>
   (snd (decide_outcome (tp, fn, tn, fp)) = Outcome_NONE \<longleftrightarrow> fp = 0) \<and>
   (snd (decide_outcome (tp, fn, tn, fp)) = Outcome_SOME \<longleftrightarrow> fp \<noteq> 0)"
  by (simp add: Let_def)

text \<open>
  Claim C2. The lookup in \<open>OUTCOME_TO_CONSTRAINTS\<close> gives, for each of the six outcome
  pairs, the tuple of constraint kinds of the spec's table, in its order; and the confusion
  matrix \<open>(tp = 0, fn = 3, tn = 5, fp = 0)\<close> is classified \<open>(NONE, NONE)\<close> and selects
  \<open>(SPECIALISATION, REDUNDANCY)\<close>.
\<close>

theorem constraint_table:
  "lookup_constraints (Outcome_ALL, Outcome_NONE) = Inr [Con_BANISH] \<and>
   lookup_constraints (Outcome_ALL, Outcome_SOME) = Inr [Con_GENERALISATION] \<and>
   lookup_constraints (Outcome_SOME, Outcome_NONE) = Inr [Con_SPECIALISATION] \<and>
   lookup_constraints (Outcome_SOME, Outcome_SOME) = Inr [Con_SPECIALISATION, Con_GENERALISATION] \<and>
   lookup_constraints (Outcome_NONE, Outcome_NONE) = Inr [Con_SPECIALISATION, Con_REDUNDANCY] \<and>
   lookup_constraints (Outcome_NONE, Outcome_SOME)
     = Inr [Con_SPECIALISATION, Con_REDUNDANCY, Con_GENERALISATION] \<and>
   decide_outcome (0, 3, 5, 0) = (Outcome_NONE, Outcome_NONE) \<and>
   select_constraints (decide_outcome (0, 3, 5, 0)) = Inr [Con_SPECIALISATION, Con_REDUNDANCY]"
  by (simp add: lookup_constraints_def OUTCOME_TO_CONSTRAINTS_def remap_negative_def)

lemma select_constraints_defined: "\<exists>kinds. select_constraints (p, n) = Inr kinds"
  by (cases p; cases n)
     (simp_all add: lookup_constraints_def OUTCOME_TO_CONSTRAINTS_def remap_negative_def)

lemma build_rules_defined:
  "\<exists>rules t'. build_rules settings constrainer E t program before min_clause outcome
      = Inr (rules, t')"
proof -
  obtain p n where o: "outcome = (p, n)" by (cases outcome)
  obtain kinds where k: "select_constraints (p, n) = Inr kinds"
    using select_constraints_defined by blast
  show ?thesis
    unfolding build_rules_def o k by (simp add: Let_def split: prod.splits)
qed

text \<open>
  Claim C3. For each of the nine pairs of a positive and a negative outcome, replacing a
  negative \<open>ALL\<close> by \<open>SOME\<close> and looking the pair up in the table gives a tuple of
  constraint kinds and never \<open>KeyError\<close>; so \<open>build_rules\<close> returns its rules for every
  outcome pair.
\<close>

theorem remap_lookup_total:
  "(\<exists>kinds. select_constraints (positive_outcome, negative_outcome) = Inr kinds) \<and>
   (\<exists>rules t'.
      build_rules settings constrainer E t program before min_clause
        (positive_outcome, negative_outcome) = Inr (rules, t'))"
  using select_constraints_defined [of positive_outcome negative_outcome]
    build_rules_defined
      [of settings constrainer E t program before min_clause "(positive_outcome, negative_outcome)"]
  by blast

text \<open>
  Claim C10. The negative outcome that \<open>decide_outcome\<close> computes is \<open>NONE\<close> or \<open>SOME\<close>
  and never \<open>ALL\<close>; so on an outcome of the classifier the test \<open>negative_outcome ==
  Outcome.ALL\<close> of \<open>build_rules\<close> is false, the replacement by \<open>SOME\<close> changes nothing, and
  the selection is the plain table lookup.
\<close>

theorem negative_outcome_never_all:
  "snd (decide_outcome conf_matrix) \<noteq> Outcome_ALL \<and>
   (snd (decide_outcome conf_matrix) = Outcome_NONE \<or>
    snd (decide_outcome conf_matrix) = Outcome_SOME) \<and>
   remap_negative (snd (decide_outcome conf_matrix)) = snd (decide_outcome conf_matrix) \<and>
   select_constraints (decide_outcome conf_matrix) = lookup_constraints (decide_outcome conf_matrix)"
  by (cases conf_matrix) (simp add: Let_def remap_negative_def)

section \<open>Properties of the tester\<close>

lemma count_pos_foldl:
  "foldl (\<lambda>(tp, fn) p. if p \<in> covered then (tp + 1, fn) else (tp, fn + 1)) (a, b) xs
     = (a + int (length (filter (\<lambda>p. p \<in> covered) xs)),
        b + int (length (filter (\<lambda>p. p \<notin> covered) xs)))"
  by (induction xs arbitrary: a b) simp_all

lemma count_neg_foldl:
  "foldl (\<lambda>(tn, fp) n. if n \<in> covered then (tn, fp + 1) else (tn + 1, fp)) (a, b) xs
     = (a + int (length (filter (\<lambda>n. n \<notin> covered) xs)),
        b + int (length (filter (\<lambda>n. n \<in> covered) xs)))"
  by (induction xs arbitrary: a b) simp_all

text \<open>The coverage queries touch only the cache \<open>seen_prog\<close>.\<close>

lemma success_set_examples:
  "pos (snd (success_set E rules t)) = pos t \<and> neg (snd (success_set E rules t)) = neg t \<and>
   already_checked_redundant_literals (snd (success_set E rules t))
     = already_checked_redundant_literals t \<and>
   redundant_literal_queries (snd (success_set E rules t)) = redundant_literal_queries t"
  by (simp add: success_set_def Let_def split: option.splits)

lemma covered_by_each_examples:
  "pos (snd (covered_by_each E rules covered t)) = pos t \<and>
   neg (snd (covered_by_each E rules covered t)) = neg t \<and>
   already_checked_redundant_literals (snd (covered_by_each E rules covered t))
     = already_checked_redundant_literals t \<and>
   redundant_literal_queries (snd (covered_by_each E rules covered t))
     = redundant_literal_queries t"
proof (induction rules arbitrary: covered t)
  case Nil
  show ?case by simp
next
  case (Cons rule rules)
  obtain xs t' where s: "success_set E [rule] t = (xs, t')"
    by (cases "success_set E [rule] t")
  have "t' = snd (success_set E [rule] t)" using s by simp
  then show ?case
    using Cons.IH [of "covered \<union> xs" t'] success_set_examples [of E "[rule]" t]
    by (simp add: s)
qed

lemma test_covered_examples:
  "pos (snd (test_covered E rules t)) = pos t \<and>
   neg (snd (test_covered E rules t)) = neg t \<and>
   already_checked_redundant_literals (snd (test_covered E rules t))
     = already_checked_redundant_literals t \<and>
   redundant_literal_queries (snd (test_covered E rules t)) = redundant_literal_queries t"
  using covered_by_each_examples [of E rules "{}" t] success_set_examples [of E rules t]
  by (simp add: test_covered_def)

text \<open>The two counting loops of \<open>test\<close> in closed form.\<close>

lemma test_unfold:
  "test E rules t =
     (let covered = fst (test_covered E rules t); t' = snd (test_covered E rules t)
      in ((int (length (filter (\<lambda>p. p \<in> covered) (pos t'))),
           int (length (filter (\<lambda>p. p \<notin> covered) (pos t'))),
           int (length (filter (\<lambda>n. n \<notin> covered) (neg t'))),
           int (length (filter (\<lambda>n. n \<in> covered) (neg t')))), t'))"
  unfolding test_def Let_def
  by (simp add: count_pos_foldl count_neg_foldl split: prod.splits)

lemma test_tester:
  "pos (snd (test E rules t)) = pos t \<and>
   neg (snd (test E rules t)) = neg t \<and>
   already_checked_redundant_literals (snd (test E rules t))
     = already_checked_redundant_literals t \<and>
   redundant_literal_queries (snd (test E rules t)) = redundant_literal_queries t"
  using test_covered_examples [of E rules t] by (simp add: test_unfold Let_def)

lemma length_filter_split:
  "int (length (filter P xs)) + int (length (filter (\<lambda>x. \<not> P x) xs)) = int (length xs)"
  using sum_length_filter_compl [of P xs] by linarith

lemma test_matrix:
  "\<exists>tp fn tn fp. fst (test E rules t) = (tp, fn, tn, fp) \<and>
      0 \<le> tp \<and> 0 \<le> fn \<and> 0 \<le> tn \<and> 0 \<le> fp \<and>
      tp + fn = int (length (pos t)) \<and> tn + fp = int (length (neg t))"
proof -
  have p: "pos (snd (test_covered E rules t)) = pos t"
    and n: "neg (snd (test_covered E rules t)) = neg t"
    using test_covered_examples [of E rules t] by simp_all
  have a: "int (length (filter (\<lambda>p. p \<in> c) (pos t))) + int (length (filter (\<lambda>p. p \<notin> c) (pos t)))
             = int (length (pos t))" for c
    by (rule length_filter_split)
  have b: "int (length (filter (\<lambda>p. p \<notin> c) (neg t))) + int (length (filter (\<lambda>p. p \<in> c) (neg t)))
             = int (length (neg t))" for c
    using length_filter_split [of "\<lambda>p. p \<in> c" "neg t"] by simp
  show ?thesis
    by (simp add: test_unfold Let_def p n a b)
qed

text \<open>
  Claim C9. For every program and every state of the tester, \<open>test\<close> returns a confusion
  matrix \<open>(tp, fn, tn, fp)\<close> of non-negative integers with \<open>tp + fn\<close> the number of positive
  examples and \<open>tn + fp\<close> the number of negative examples. These numbers are fixed: \<open>test\<close>
  leaves the example lists as they are, and a new tester holds one index for each example
  that was loaded.
\<close>

theorem test_counts_examples:
  "(case fst (test E rules t) of (tp, fn, tn, fp) \<Rightarrow>
      0 \<le> tp \<and> 0 \<le> fn \<and> 0 \<le> tn \<and> 0 \<le> fp \<and>
      tp + fn = int (length (pos t)) \<and> tn + fp = int (length (neg t))) \<and>
   pos (snd (test E rules t)) = pos t \<and> neg (snd (test E rules t)) = neg t \<and>
   length (pos (Tester_init num_pos num_neg :: 'k Tester)) = num_pos \<and>
   length (neg (Tester_init num_pos num_neg :: 'k Tester)) = num_neg"
proof -
  obtain tp fn tn fp where "fst (test E rules t) = (tp, fn, tn, fp)"
    and "0 \<le> tp \<and> 0 \<le> fn \<and> 0 \<le> tn \<and> 0 \<le> fp \<and>
      tp + fn = int (length (pos t)) \<and> tn + fp = int (length (neg t))"
    using test_matrix [of E rules t] by blast
  then show ?thesis
    using test_tester [of E rules t] by (simp add: Tester_init_def)
qed

section \<open>Properties of the grounding\<close>

lemma add_each_foldl:
  "foldl (\<lambda>out assignment. insert (g assignment) out) out assignments = out \<union> g ` set assignments"
  by (induction assignments arbitrary: out) auto

lemma union_each_foldl:
  "foldl (\<lambda>out x. out \<union> F x) out xs = out \<union> (\<Union>x \<in> set xs. F x)"
  by (induction xs arbitrary: out) auto

lemma ground_rules_set:
  "ground_rules fb gc mc mv clauses =
     (\<Union>clause \<in> set clauses.
        gc (fst clause, filter (\<lambda>literal. \<not> meta literal) (snd clause)) ` set (fb clause mc mv))"
  unfolding ground_rules_def
  by (simp add: add_each_foldl Let_def case_prod_beta union_each_foldl)

text \<open>
  Claim C6, as the code has it. Bindings are requested for the clause as it was derived,
  meta literals included (line 37 comes before line 40). The clause that is instantiated
  has the same head and, as its body, the body literals whose \<open>meta\<close> flag is not set: a
  ground constraint is in the result exactly when it is \<open>ground_clause\<close> of such a clause
  under a binding that \<open>find_bindings\<close> returned for the unfiltered clause, so every ground
  constraint is the instantiation of a clause without meta body literals.
\<close>

theorem ground_rules_standard_body:
  "(g \<in> ground_rules fb gc mc mv clauses \<longleftrightarrow>
      (\<exists>head body assignment.
          (head, body) \<in> set clauses \<and> assignment \<in> set (fb (head, body) mc mv) \<and>
          g = gc (head, filter (\<lambda>literal. \<not> meta literal) body) assignment)) \<and>
   (g \<in> ground_rules fb gc mc mv clauses \<longrightarrow>
      (\<exists>head body' assignment. g = gc (head, body') assignment \<and> (\<forall>literal \<in> set body'. \<not> meta literal)))"
proof -
  have a: "g \<in> ground_rules fb gc mc mv clauses \<longleftrightarrow>
      (\<exists>head body assignment.
          (head, body) \<in> set clauses \<and> assignment \<in> set (fb (head, body) mc mv) \<and>
          g = gc (head, filter (\<lambda>literal. \<not> meta literal) body) assignment)"
    unfolding ground_rules_set by fastforce
  have b: "\<forall>literal \<in> set (filter (\<lambda>literal. \<not> meta literal) body). \<not> meta literal" for body
    by simp
  show ?thesis using a b by blast
qed

theorem ground_rules_standard_body_witness:
  "ground_rules (\<lambda>clause mc mv. [()]) (\<lambda>clause assignment. clause) 2 2
     [(lit_f, [lit_g, lit_lt])] = {(lit_f, [lit_g])} \<and>
   (\<exists>head body' assignment.
      (lit_f, [lit_g]) = (\<lambda>clause assignment. clause) (head, body') (assignment :: unit) \<and>
      list_all (\<lambda>literal. \<not> meta literal) body')"
proof -
  have e: "ground_rules (\<lambda>clause mc mv. [()]) (\<lambda>clause assignment. clause) 2 2
     [(lit_f, [lit_g, lit_lt])] = {(lit_f, [lit_g])}"
    by (simp add: ground_rules_def lit_g_def lit_lt_def)
  then have "(lit_f, [lit_g]) \<in> ground_rules (\<lambda>clause mc mv. [()]) (\<lambda>clause assignment. clause)
     2 2 [(lit_f, [lit_g, lit_lt])]"
    by simp
  then show ?thesis
    using e ground_rules_standard_body
      [of "(lit_f, [lit_g])" "\<lambda>clause mc mv. [()]" "\<lambda>clause assignment. clause" 2 2
          "[(lit_f, [lit_g, lit_lt])]"]
    by (simp add: list_all_iff)
qed

text \<open>
  Claim C6, as it is stated, fails: the clause that bindings are requested for keeps its
  meta literals. With \<open>requested_clause\<close> for \<open>find_bindings\<close> and \<open>returned_binding\<close> for
  \<open>ground_clause\<close> the result is the set of clauses that \<open>find_bindings\<close> was called
  with; for a constraint with the meta literal \<open>lit_lt\<close> in its body it holds that
  constraint with \<open>lit_lt\<close> still in its body.
\<close>

theorem bindings_requested_with_meta:
  "(lit_f, [lit_g, lit_lt]) \<in>
     ground_rules requested_clause returned_binding 2 2 [(lit_f, [lit_g, lit_lt])] \<and>
   meta lit_lt"
  by (simp add: ground_rules_def requested_clause_def returned_binding_def lit_lt_def)


section \<open>Properties of the search loop\<close>

lemma check_redundant_literal_examples:
  "pos (snd (check_redundant_literal E program t)) = pos t \<and>
   neg (snd (check_redundant_literal E program t)) = neg t"
proof (induction program arbitrary: t)
  case Nil
  show ?case by simp
next
  case (Cons clause program)
  show ?case
  proof (cases "clause_hash E clause \<in> already_checked_redundant_literals t")
    case True
    then show ?thesis using Cons.IH [of t] by simp
  next
    case False
    let ?t2 = "t\<lparr>already_checked_redundant_literals :=
                   insert (clause_hash E clause) (already_checked_redundant_literals t),
                 redundant_literal_queries := clause # redundant_literal_queries t\<rparr>"
    show ?thesis
      using False Cons.IH [of ?t2] by (simp add: Let_def case_prod_beta)
  qed
qed

lemma build_rules_examples:
  assumes "build_rules settings constrainer E t program before min_clause outcome = Inr (rules, t')"
  shows "pos t' = pos t \<and> neg t' = neg t"
proof -
  have "t' = snd (check_redundant_literal E program t)"
    using assms
    by (auto simp: build_rules_def Let_def split: sum.splits prod.splits)
  then show ?thesis
    using check_redundant_literal_examples [of E program t] by simp
qed

lemma update_best_fields:
  "solver (update_best program cm score st) = solver st \<and>
   tester (update_best program cm score st) = tester st \<and>
   total_programs (update_best program cm score st) = total_programs st"
  by (simp add: update_best_def)

lemma update_best_mono: "score_le (best_score st) (best_score (update_best program cm score st))"
  by (cases "best_score st") (simp_all add: update_best_def)

lemma score_le_refl: "score_le a a"
  by (cases a) simp_all

lemma score_le_trans: "score_le a b \<Longrightarrow> score_le b c \<Longrightarrow> score_le a c"
  by (cases a; cases b; cases c) simp_all

text \<open>What one pass does to the tracker: it is update_best on the tested candidate.\<close>

lemma loop_body_tracker:
  assumes "loop_body settings W constrainer E model st = Return st' \<or>
           loop_body settings W constrainer E model st = Next st'"
  shows "best_score st' = best_score (update_best (fst (generate_program W model))
            (fst (test E (fst (generate_program W model)) (tester st)))
            (calc_score (fst (test E (fst (generate_program W model)) (tester st)))) st) \<and>
         args st' = args (update_best (fst (generate_program W model))
            (fst (test E (fst (generate_program W model)) (tester st)))
            (calc_score (fst (test E (fst (generate_program W model)) (tester st)))) st)"
  using assms
  by (auto simp: loop_body_def Let_def update_best_def split: prod.splits if_splits sum.splits)


lemma decide_outcome_all_none:
  "decide_outcome (tp, fn, tn, fp) = (Outcome_ALL, Outcome_NONE) \<longleftrightarrow> fn = 0 \<and> fp = 0"
  by (simp add: Let_def)

lemma loop_body_unfold:
  "loop_body settings W constrainer E model st =
     (let program = fst (generate_program W model);
          before = fst (snd (generate_program W model));
          min_clause = snd (snd (generate_program W model));
          conf_matrix = fst (test E program (tester st));
          t' = snd (test E program (tester st));
          st1 = update_best program conf_matrix (calc_score conf_matrix)
                  (st\<lparr>total_programs := total_programs st + 1, tester := t'\<rparr>)
      in if decide_outcome conf_matrix = (Outcome_ALL, Outcome_NONE) then Return st1
         else
           (case build_rules settings constrainer E t' program before min_clause
                   (decide_outcome conf_matrix) of
              Inl e \<Rightarrow> Raise e
            | Inr r \<Rightarrow>
                Next (st1\<lparr>tester := snd r,
                          solver := add_ground_clauses W
                            (ground_rules (find_bindings W) (ground_clause W)
                               (max_clauses W (solver st)) (max_vars W (solver st)) (fst r))
                            (solver st)\<rparr>)))"
  by (simp add: loop_body_def Let_def case_prod_beta update_best_fields split: sum.splits)

lemma loop_body_Return_iff:
  "(\<exists>st'. loop_body settings W constrainer E model st = Return st') \<longleftrightarrow>
   decide_outcome (fst (test E (fst (generate_program W model)) (tester st)))
     = (Outcome_ALL, Outcome_NONE)"
  by (simp add: loop_body_unfold Let_def split: sum.splits)

lemma loop_body_Return_state:
  assumes "loop_body settings W constrainer E model st = Return st'"
  shows "st' = update_best (fst (generate_program W model))
                 (fst (test E (fst (generate_program W model)) (tester st)))
                 (calc_score (fst (test E (fst (generate_program W model)) (tester st))))
                 (st\<lparr>total_programs := total_programs st + 1,
                     tester := snd (test E (fst (generate_program W model)) (tester st))\<rparr>)"
  using assms by (simp add: loop_body_unfold Let_def split: if_splits sum.splits)

lemma update_best_bounded:
  assumes "best_bounded st" and "score < int (length (pos (tester st))) + int (length (neg (tester st)))"
  shows "best_bounded (update_best program cm score st)"
  using assms by (simp add: best_bounded_def update_best_def split: option.splits)

lemma score_below_examples:
  assumes "0 \<le> tp" "0 \<le> fn" "0 \<le> tn" "0 \<le> fp" "tp + fn = P" "tn + fp = N"
    and "decide_outcome (tp, fn, tn, fp) \<noteq> (Outcome_ALL, Outcome_NONE)"
  shows "calc_score (tp, fn, tn, fp) < P + N"
proof -
  have "fn \<noteq> 0 \<or> fp \<noteq> 0" using assms(7) decide_outcome_all_none by blast
  then show ?thesis using assms(1-6) by auto
qed

lemma score_full_examples:
  assumes "tp + fn = P" "tn + fp = N"
    and "decide_outcome (tp, fn, tn, fp) = (Outcome_ALL, Outcome_NONE)"
  shows "calc_score (tp, fn, tn, fp) = P + N"
proof -
  have "fn = 0 \<and> fp = 0" using assms(3) decide_outcome_all_none by blast
  then show ?thesis using assms(1,2) by auto
qed

lemma loop_body_Next_bounded:
  assumes "loop_body settings W constrainer E model st = Next st'" and "best_bounded st"
  shows "best_bounded st'"
proof -
  let ?program = "fst (generate_program W model)"
  let ?cm = "fst (test E ?program (tester st))"
  let ?t1 = "snd (test E ?program (tester st))"
  let ?st0 = "st\<lparr>total_programs := total_programs st + 1, tester := ?t1\<rparr>"
  let ?st1 = "update_best ?program ?cm (calc_score ?cm) ?st0"
  obtain tp fn tn fp where cm: "?cm = (tp, fn, tn, fp)"
    and nn: "0 \<le> tp" "0 \<le> fn" "0 \<le> tn" "0 \<le> fp"
    and sums: "tp + fn = int (length (pos (tester st)))" "tn + fp = int (length (neg (tester st)))"
    using test_matrix [of E ?program "tester st"] by blast
  have t1: "pos ?t1 = pos (tester st)" "neg ?t1 = neg (tester st)"
    using test_tester [of E ?program "tester st"] by simp_all
  have ne: "decide_outcome ?cm \<noteq> (Outcome_ALL, Outcome_NONE)"
    using assms(1) by (simp add: loop_body_unfold Let_def split: if_splits)
  obtain r where br: "build_rules settings constrainer E ?t1 ?program
        (fst (snd (generate_program W model))) (snd (snd (generate_program W model)))
        (decide_outcome ?cm) = Inr r"
    and st': "st' = ?st1\<lparr>tester := snd r,
                solver := add_ground_clauses W
                  (ground_rules (find_bindings W) (ground_clause W)
                     (max_clauses W (solver st)) (max_vars W (solver st)) (fst r))
                  (solver st)\<rparr>"
    using assms(1) ne by (auto simp: loop_body_unfold Let_def split: sum.splits)
  have r: "pos (snd r) = pos ?t1 \<and> neg (snd r) = neg ?t1"
    using build_rules_examples [of settings constrainer E ?t1 ?program _ _ _ "fst r" "snd r"] br
    by simp
  have lt: "calc_score ?cm < int (length (pos (tester st))) + int (length (neg (tester st)))"
    using score_below_examples [OF nn sums] ne cm by simp
  have b0: "best_bounded ?st0"
    using assms(2) t1 by (simp add: best_bounded_def split: option.splits)
  have "best_bounded ?st1"
    using update_best_bounded [OF b0, of "calc_score ?cm" ?program ?cm] lt t1 by simp
  then show ?thesis
    using r t1 by (simp add: st' best_bounded_def update_best_fields split: option.splits)
qed

lemma loop_body_Return_args:
  assumes "loop_body settings W constrainer E model st = Return st'" and "best_bounded st"
  shows "args st' = Some (fst (generate_program W model),
                          fst (test E (fst (generate_program W model)) (tester st)))"
proof -
  let ?program = "fst (generate_program W model)"
  let ?cm = "fst (test E ?program (tester st))"
  obtain tp fn tn fp where cm: "?cm = (tp, fn, tn, fp)"
    and sums: "tp + fn = int (length (pos (tester st)))" "tn + fp = int (length (neg (tester st)))"
    using test_matrix [of E ?program "tester st"] by blast
  have "decide_outcome ?cm = (Outcome_ALL, Outcome_NONE)"
    using assms(1) loop_body_Return_iff [of settings W constrainer E model st] by blast
  then have "calc_score ?cm = int (length (pos (tester st))) + int (length (neg (tester st)))"
    using score_full_examples [OF sums] cm by simp
  then have "improves (calc_score ?cm) (best_score st)"
    using assms(2) by (cases "best_score st") (simp_all add: best_bounded_def)
  then show ?thesis
    using loop_body_Return_state [OF assms(1)] by (simp add: update_best_def)
qed


lemma best_bounded_solver [simp]: "best_bounded (st\<lparr>solver := s\<rparr>) = best_bounded st"
  by (simp add: best_bounded_def split: option.splits)

lemma loop_body_mono:
  assumes "loop_body settings W constrainer E model st = Return st' \<or>
           loop_body settings W constrainer E model st = Next st'"
  shows "score_le (best_score st) (best_score st')"
  using loop_body_tracker [OF assms] update_best_mono by metis

lemma candidate_loop_bounded:
  assumes "best_bounded st"
  shows "(candidate_loop fuel settings W constrainer E st = Found st' \<longrightarrow>
            (\<exists>program tp tn. args st' = Some (program, (tp, 0, tn, 0)))) \<and>
         (candidate_loop fuel settings W constrainer E st = Exhausted st' \<longrightarrow> best_bounded st')"
  using assms
proof (induction fuel arbitrary: st)
  case 0
  show ?case by simp
next
  case (Suc fuel)
  obtain m s where gm: "get_model W (solver st) = (m, s)"
    by (cases "get_model W (solver st)")
  show ?case
  proof (cases m)
    case None
    then show ?thesis using gm Suc.prems by auto
  next
    case (Some model)
    let ?st = "st\<lparr>solver := s\<rparr>"
    have b: "best_bounded ?st" using Suc.prems by simp
    show ?thesis
    proof (cases "loop_body settings W constrainer E model ?st")
      case (Return st1)
      have a: "args st1 = Some (fst (generate_program W model),
                 fst (test E (fst (generate_program W model)) (tester ?st)))"
        using loop_body_Return_args [OF Return b] .
      have d: "decide_outcome (fst (test E (fst (generate_program W model)) (tester ?st)))
                 = (Outcome_ALL, Outcome_NONE)"
        using Return loop_body_Return_iff [of settings W constrainer E model ?st] by blast
      obtain tp fn tn fp where
        cm: "fst (test E (fst (generate_program W model)) (tester ?st)) = (tp, fn, tn, fp)"
        using prod_cases4 by blast
      have "fn = 0 \<and> fp = 0" using d cm decide_outcome_all_none by metis
      then show ?thesis using gm Some Return a cm by auto
    next
      case (Next st1)
      have "best_bounded st1" using loop_body_Next_bounded [OF Next b] .
      then show ?thesis using gm Some Next Suc.IH [of st1] by simp
    next
      case (Raise e)
      then show ?thesis using gm Some by simp
    qed
  qed
qed

lemma candidate_loop_mono:
  "candidate_loop fuel settings W constrainer E st = Found st' \<or>
   candidate_loop fuel settings W constrainer E st = Exhausted st'
   \<Longrightarrow> score_le (best_score st) (best_score st')"
proof (induction fuel arbitrary: st)
  case 0
  then show ?case by simp
next
  case (Suc fuel)
  obtain m s where gm: "get_model W (solver st) = (m, s)"
    by (cases "get_model W (solver st)")
  show ?case
  proof (cases m)
    case None
    then show ?thesis using gm Suc.prems by (auto simp: score_le_refl)
  next
    case (Some model)
    let ?st = "st\<lparr>solver := s\<rparr>"
    show ?thesis
    proof (cases "loop_body settings W constrainer E model ?st")
      case (Return st1)
      then have "st' = st1" using Suc.prems gm Some by simp
      then show ?thesis
        using loop_body_mono [of settings W constrainer E model ?st st1] Return by simp
    next
      case (Next st1)
      have 1: "score_le (best_score st) (best_score st1)"
        using loop_body_mono [of settings W constrainer E model ?st st1] Next by simp
      have 2: "score_le (best_score st1) (best_score st')"
        using Suc.IH [of st1] Suc.prems gm Some Next by simp
      show ?thesis using score_le_trans [OF 1 2] .
    next
      case (Raise e)
      then show ?thesis using gm Some Suc.prems by simp
    qed
  qed
qed

lemma size_loop_bounded:
  assumes "best_bounded st"
  shows "(size_loop fuel settings W constrainer E sizes st = Found st' \<longrightarrow>
            (\<exists>program tp tn. args st' = Some (program, (tp, 0, tn, 0)))) \<and>
         (size_loop fuel settings W constrainer E sizes st = Exhausted st' \<longrightarrow> best_bounded st')"
  using assms
proof (induction sizes arbitrary: st)
  case Nil
  then show ?case by auto
next
  case (Cons n sizes)
  let ?st = "st\<lparr>solver := update_number_of_literals W n (solver st)\<rparr>"
  have b: "best_bounded ?st" using Cons.prems by simp
  show ?case
  proof (cases "candidate_loop fuel settings W constrainer E ?st")
    case (Found st1)
    then show ?thesis using candidate_loop_bounded [OF b, of fuel settings W constrainer E st1] by auto
  next
    case (Exhausted st1)
    then have "best_bounded st1"
      using candidate_loop_bounded [OF b, of fuel settings W constrainer E st1] by simp
    then show ?thesis using Cons.IH [of st1] Exhausted by simp
  next
    case (Failed e)
    then show ?thesis by simp
  next
    case Out_Of_Fuel
    then show ?thesis by simp
  qed
qed

lemma size_loop_mono:
  "size_loop fuel settings W constrainer E sizes st = Found st' \<or>
   size_loop fuel settings W constrainer E sizes st = Exhausted st'
   \<Longrightarrow> score_le (best_score st) (best_score st')"
proof (induction sizes arbitrary: st)
  case Nil
  then show ?case by (auto simp: score_le_refl)
next
  case (Cons n sizes)
  let ?st = "st\<lparr>solver := update_number_of_literals W n (solver st)\<rparr>"
  show ?case
  proof (cases "candidate_loop fuel settings W constrainer E ?st")
    case (Found st1)
    then have "st' = st1" using Cons.prems by simp
    then show ?thesis
      using candidate_loop_mono [of fuel settings W constrainer E ?st st1] Found by simp
  next
    case (Exhausted st1)
    have 1: "score_le (best_score st) (best_score st1)"
      using candidate_loop_mono [of fuel settings W constrainer E ?st st1] Exhausted by simp
    have 2: "score_le (best_score st1) (best_score st')"
      using Cons.IH [of st1] Cons.prems Exhausted by simp
    show ?thesis using score_le_trans [OF 1 2] .
  next
    case (Failed e)
    then show ?thesis using Cons.prems by simp
  next
    case Out_Of_Fuel
    then show ?thesis using Cons.prems by simp
  qed
qed

lemma popper_found:
  assumes "popper fuel settings W constrainer E solver0 tester0 args0 total0 = Found st'"
  shows "\<exists>program tp tn. args st' = Some (program, (tp, 0, tn, 0))"
proof -
  let ?st = "\<lparr>solver = solver0, tester = tester0, best_score = None, args = args0,
              total_programs = total0\<rparr>"
  have "best_bounded ?st" by (simp add: best_bounded_def)
  then show ?thesis
    using size_loop_bounded [of ?st fuel settings W constrainer E "[1..max_literals settings]" st']
      assms
    by (simp add: popper_def)
qed

lemma loop_body_Next_iff:
  "(\<exists>st'. loop_body settings W constrainer E model st = Next st') \<longleftrightarrow>
   decide_outcome (fst (test E (fst (generate_program W model)) (tester st)))
     \<noteq> (Outcome_ALL, Outcome_NONE)"
proof -
  obtain rules t' where r:
    "build_rules settings constrainer E (snd (test E (fst (generate_program W model)) (tester st)))
       (fst (generate_program W model)) (fst (snd (generate_program W model)))
       (snd (snd (generate_program W model)))
       (decide_outcome (fst (test E (fst (generate_program W model)) (tester st))))
     = Inr (rules, t')"
    using build_rules_defined
      [of settings constrainer E "snd (test E (fst (generate_program W model)) (tester st))"
          "fst (generate_program W model)" "fst (snd (generate_program W model))"
          "snd (snd (generate_program W model))"
          "decide_outcome (fst (test E (fst (generate_program W model)) (tester st)))"]
    by auto
  show ?thesis
    by (simp add: loop_body_unfold Let_def r)
qed

text \<open>
  Claim C4. For a candidate that the loop tests, with confusion matrix \<open>(tp, fn, tn, fp)\<close>:
  the pass returns from \<open>popper\<close> exactly when the outcome is \<open>(ALL, NONE)\<close>, and goes on
  to build and submit constraints exactly when it is not; the outcome is \<open>(ALL, NONE)\<close>
  exactly when \<open>fn = 0\<close> and \<open>fp = 0\<close>. When the pass returns, the solver is as \<open>get_model\<close>
  left it (nothing was submitted), the tester is as \<open>test\<close> left it (no constraint was
  built), and in a state that satisfies the invariant of the loop the entry
  \<open>args[PROG_KEY]\<close> is the current program with its matrix. So a run that ends by this
  return reports a program with \<open>fn = 0\<close> and \<open>fp = 0\<close>.
\<close>

theorem found_iff_all_none:
  assumes "generate_program W model = (program, before, min_clause)"
    and "test E program (tester st) = ((tp, fn, tn, fp), t')"
  shows
  "((\<exists>st'. loop_body settings W constrainer E model st = Return st') \<longleftrightarrow>
      decide_outcome (tp, fn, tn, fp) = (Outcome_ALL, Outcome_NONE)) \<and>
   ((\<exists>st'. loop_body settings W constrainer E model st = Next st') \<longleftrightarrow>
      decide_outcome (tp, fn, tn, fp) \<noteq> (Outcome_ALL, Outcome_NONE)) \<and>
   (decide_outcome (tp, fn, tn, fp) = (Outcome_ALL, Outcome_NONE) \<longleftrightarrow> fn = 0 \<and> fp = 0) \<and>
   (\<forall>st'. loop_body settings W constrainer E model st = Return st' \<longrightarrow>
      solver st' = solver st \<and> tester st' = t' \<and>
      (best_bounded st \<longrightarrow> args st' = Some (program, (tp, fn, tn, fp)))) \<and>
   (\<forall>fuel solver0 tester0 args0 total0 st'.
      popper fuel settings W constrainer E solver0 tester0 args0 total0 = Found st' \<longrightarrow>
      (\<exists>program' tp' tn'. args st' = Some (program', (tp', 0, tn', 0))))"
proof -
  have p: "fst (generate_program W model) = program" using assms(1) by simp
  have c: "fst (test E program (tester st)) = (tp, fn, tn, fp)"
    and t: "snd (test E program (tester st)) = t'" using assms(2) by simp_all
  have 1: "(\<exists>st'. loop_body settings W constrainer E model st = Return st') \<longleftrightarrow>
      decide_outcome (tp, fn, tn, fp) = (Outcome_ALL, Outcome_NONE)"
    using loop_body_Return_iff [of settings W constrainer E model st] by (simp add: p c)
  have 2: "(\<exists>st'. loop_body settings W constrainer E model st = Next st') \<longleftrightarrow>
      decide_outcome (tp, fn, tn, fp) \<noteq> (Outcome_ALL, Outcome_NONE)"
    using loop_body_Next_iff [of settings W constrainer E model st] by (simp add: p c)
  have 3: "decide_outcome (tp, fn, tn, fp) = (Outcome_ALL, Outcome_NONE) \<longleftrightarrow> fn = 0 \<and> fp = 0"
    by (rule decide_outcome_all_none)
  have 4: "solver st' = solver st \<and> tester st' = t' \<and>
      (best_bounded st \<longrightarrow> args st' = Some (program, (tp, fn, tn, fp)))"
    if r: "loop_body settings W constrainer E model st = Return st'" for st'
  proof -
    have "solver st' = solver st \<and> tester st' = t'"
      using loop_body_Return_state [OF r] by (simp add: update_best_fields p t)
    moreover have "best_bounded st \<Longrightarrow> args st' = Some (program, (tp, fn, tn, fp))"
      using loop_body_Return_args [OF r] by (simp add: p c)
    ultimately show ?thesis by blast
  qed
  have 5: "\<exists>program' tp' tn'. args st' = Some (program', (tp', 0, tn', 0))"
    if "popper fuel settings W constrainer E solver0 tester0 args0 total0 = Found st'"
    for fuel solver0 tester0 args0 total0 st'
    using popper_found [OF that] .
  show ?thesis using 1 2 3 4 5 by blast
qed

lemma example_test_good:
  "test example_evaluator [(lit_f, [lit_g])] example_tester
     = ((2, 0, 1, 0), example_tester\<lparr>seen_prog := [{(lit_f, [lit_g])} \<mapsto> {1, 2}]\<rparr>)"
  by (simp add: test_unfold test_covered_def example_evaluator_def success_set_def example_tester_def Let_def)

theorem found_iff_all_none_witness:
  "(\<exists>st'. loop_body example_settings example_world example_constrainer example_evaluator
           [(lit_f, [lit_g])] example_run = Return st' \<and>
         solver st' = [] \<and>
         args st' = Some ([(lit_f, [lit_g])], (2, 0, 1, 0))) \<and>
   decide_outcome (2, 0, 1, 0) = (Outcome_ALL, Outcome_NONE) \<and>
   best_bounded example_run"
proof -
  have g: "generate_program example_world [(lit_f, [lit_g])] = ([(lit_f, [lit_g])], (), ())"
    by (simp add: example_world_def)
  have t: "test example_evaluator [(lit_f, [lit_g])] (tester example_run)
             = ((2, 0, 1, 0), example_tester\<lparr>seen_prog := [{(lit_f, [lit_g])} \<mapsto> {1, 2}]\<rparr>)"
    using example_test_good by (simp add: example_run_def)
  have b: "best_bounded example_run"
    by (simp add: best_bounded_def example_run_def)
  have s: "solver example_run = []" by (simp add: example_run_def)
  show ?thesis
    using found_iff_all_none [OF g t, of example_settings example_constrainer] b s
    by auto
qed

lemma update_best_changes:
  "update_best program cm score st \<noteq> st \<longleftrightarrow> improves score (best_score st)"
proof (cases "improves score (best_score st)")
  case True
  then have "best_score (update_best program cm score st) \<noteq> best_score st"
    by (cases "best_score st") (simp_all add: update_best_def)
  then show ?thesis using True by metis
next
  case False
  then show ?thesis by (simp add: update_best_def)
qed

text \<open>
  Claim C5. The tracker changes exactly when there is no best score yet or the score
  \<open>tp + tn\<close> of the candidate is strictly greater than the best score; it then records
  the score, the program and the matrix. On an equal score nothing changes, so the program
  found earlier stays. The recorded best score never decreases: not in one update, not in
  one pass of the loop body (whose effect on the tracker is this update), and not over the
  candidates of the inner loop or of the whole run.
\<close>

theorem best_tracker_strict:
  "(update_best program cm (calc_score cm) st \<noteq> st \<longleftrightarrow>
      best_score st = None \<or> (\<exists>best. best_score st = Some best \<and> best < calc_score cm)) \<and>
   (update_best program cm (calc_score cm) st \<noteq> st \<longrightarrow>
      best_score (update_best program cm (calc_score cm) st) = Some (calc_score cm) \<and>
      args (update_best program cm (calc_score cm) st) = Some (program, cm)) \<and>
   (best_score st = Some (calc_score cm) \<longrightarrow> update_best program cm (calc_score cm) st = st) \<and>
   score_le (best_score st) (best_score (update_best program cm (calc_score cm) st)) \<and>
   (loop_body settings W constrainer E model st = Return st' \<or>
    loop_body settings W constrainer E model st = Next st' \<longrightarrow>
      score_le (best_score st) (best_score st') \<and>
      (best_score st = Some (calc_score (fst (test E (fst (generate_program W model)) (tester st))))
         \<longrightarrow> best_score st' = best_score st \<and> args st' = args st)) \<and>
   (candidate_loop fuel settings W constrainer E st = Found st' \<or>
    candidate_loop fuel settings W constrainer E st = Exhausted st' \<longrightarrow>
      score_le (best_score st) (best_score st')) \<and>
   (size_loop fuel settings W constrainer E sizes st = Found st' \<or>
    size_loop fuel settings W constrainer E sizes st = Exhausted st' \<longrightarrow>
      score_le (best_score st) (best_score st'))"
proof -
  have i: "improves (calc_score cm) (best_score st) \<longleftrightarrow>
      best_score st = None \<or> (\<exists>best. best_score st = Some best \<and> best < calc_score cm)"
    by (cases "best_score st") simp_all
  have 1: "update_best program cm (calc_score cm) st \<noteq> st \<longleftrightarrow>
      best_score st = None \<or> (\<exists>best. best_score st = Some best \<and> best < calc_score cm)"
    using update_best_changes [of program cm "calc_score cm" st] i by simp
  have 2: "update_best program cm (calc_score cm) st \<noteq> st \<longrightarrow>
      best_score (update_best program cm (calc_score cm) st) = Some (calc_score cm) \<and>
      args (update_best program cm (calc_score cm) st) = Some (program, cm)"
    by (simp add: update_best_def)
  have 3: "best_score st = Some (calc_score cm) \<longrightarrow> update_best program cm (calc_score cm) st = st"
    by (simp add: update_best_def)
  have 4: "score_le (best_score st) (best_score (update_best program cm (calc_score cm) st))"
    by (rule update_best_mono)
  have 5: "score_le (best_score st) (best_score st') \<and>
      (best_score st = Some (calc_score (fst (test E (fst (generate_program W model)) (tester st))))
         \<longrightarrow> best_score st' = best_score st \<and> args st' = args st)"
    if h: "loop_body settings W constrainer E model st = Return st' \<or>
           loop_body settings W constrainer E model st = Next st'"
    using loop_body_mono [OF h] loop_body_tracker [OF h] by (simp add: update_best_def)
  have 6: "score_le (best_score st) (best_score st')"
    if h: "candidate_loop fuel settings W constrainer E st = Found st' \<or>
           candidate_loop fuel settings W constrainer E st = Exhausted st'"
    using candidate_loop_mono [OF h] .
  have 7: "score_le (best_score st) (best_score st')"
    if h: "size_loop fuel settings W constrainer E sizes st = Found st' \<or>
           size_loop fuel settings W constrainer E sizes st = Exhausted st'"
    using size_loop_mono [OF h] .
  show ?thesis using 1 2 3 4 5 6 7 by blast
qed

lemma example_run_tie:
  "\<exists>st'. candidate_loop 3 example_settings example_world example_constrainer example_evaluator
      (example_run\<lparr>solver := [[(lit_f, [])], [(lit_g, [])]]\<rparr>) = Exhausted st' \<and>
     best_score st' = Some 2 \<and> args st' = Some ([(lit_f, [])], (2, 0, 0, 1))"
  by (simp add: numeral_3_eq_3 loop_body_unfold test_unfold test_covered_def success_set_def
      build_rules_def outcome_rules_def redundant_literal_rules_def set_update_def
      lookup_constraints_def OUTCOME_TO_CONSTRAINTS_def remap_negative_def
      check_redundant_clause_def is_non_functional_def update_best_def Let_def
      example_world_def example_evaluator_def example_constrainer_def example_settings_def
      example_run_def example_tester_def lit_f_def lit_g_def)

theorem best_tracker_strict_witness:
  "(\<exists>st'. candidate_loop 3 example_settings example_world example_constrainer example_evaluator
      (example_run\<lparr>solver := [[(lit_f, [])], [(lit_g, [])]]\<rparr>) = Exhausted st' \<and>
     best_score st' = Some 2 \<and> args st' = Some ([(lit_f, [])], (2, 0, 0, 1)) \<and>
     score_le (best_score (example_run\<lparr>solver := [[(lit_f, [])], [(lit_g, [])]]\<rparr>))
       (best_score st')) \<and>
   update_best [(lit_f, [])] (2, 0, 0, 1) (calc_score (2, 0, 0, 1)) example_run \<noteq> example_run \<and>
   args (update_best [(lit_f, [])] (2, 0, 0, 1) (calc_score (2, 0, 0, 1)) example_run)
     = Some ([(lit_f, [])], (2, 0, 0, 1)) \<and>
   update_best [(lit_g, [])] (2, 0, 0, 1) (calc_score (2, 0, 0, 1))
     (example_run\<lparr>best_score := Some 2, args := Some ([(lit_f, [])], (2, 0, 0, 1))\<rparr>)
     = example_run\<lparr>best_score := Some 2, args := Some ([(lit_f, [])], (2, 0, 0, 1))\<rparr>"
proof -
  let ?st = "example_run\<lparr>solver := [[(lit_f, [])], [(lit_g, [])]]\<rparr>"
  let ?tie = "example_run\<lparr>best_score := Some 2, args := Some ([(lit_f, [])], (2, 0, 0, 1))\<rparr>"
  obtain st' where r:
    "candidate_loop 3 example_settings example_world example_constrainer example_evaluator ?st
       = Exhausted st'"
    "best_score st' = Some 2" "args st' = Some ([(lit_f, [])], (2, 0, 0, 1))"
    using example_run_tie by blast
  have 1: "score_le (best_score ?st) (best_score st')"
    using r(1) best_tracker_strict
      [where st = ?st and st' = st' and fuel = 3 and settings = example_settings
         and W = example_world and constrainer = example_constrainer
         and E = example_evaluator, THEN conjunct2, THEN conjunct2, THEN conjunct2,
         THEN conjunct2, THEN conjunct2, THEN conjunct1]
    by blast
  have n: "best_score example_run = None" by (simp add: example_run_def)
  have 2: "update_best [(lit_f, [])] (2, 0, 0, 1) (calc_score (2, 0, 0, 1)) example_run
             \<noteq> example_run \<and>
           args (update_best [(lit_f, [])] (2, 0, 0, 1) (calc_score (2, 0, 0, 1)) example_run)
             = Some ([(lit_f, [])], (2, 0, 0, 1))"
    using n
      best_tracker_strict [of "[(lit_f, [])]" "(2, 0, 0, 1)" example_run, THEN conjunct1]
      best_tracker_strict [of "[(lit_f, [])]" "(2, 0, 0, 1)" example_run, THEN conjunct2,
        THEN conjunct1]
    by blast
  have t: "best_score ?tie = Some (calc_score (2, 0, 0, 1))" by simp
  have 3: "update_best [(lit_g, [])] (2, 0, 0, 1) (calc_score (2, 0, 0, 1)) ?tie = ?tie"
    using t
      best_tracker_strict [of "[(lit_g, [])]" "(2, 0, 0, 1)" ?tie, THEN conjunct2,
        THEN conjunct2, THEN conjunct1]
    by blast
  show ?thesis using r 1 2 3 by blast
qed

section \<open>Properties of the redundant-literal check\<close>

lemma check_redundant_literal_Cons:
  "check_redundant_literal E (clause # program) t =
     (if clause_hash E clause \<in> already_checked_redundant_literals t
      then check_redundant_literal E program t
      else
        (let r = check_redundant_literal E program
                   (t\<lparr>already_checked_redundant_literals :=
                        insert (clause_hash E clause) (already_checked_redundant_literals t),
                      redundant_literal_queries := clause # redundant_literal_queries t\<rparr>)
         in (if query_redundant_literal E clause then clause # fst r else fst r, snd r)))"
  by (simp add: Let_def case_prod_beta)

declare check_redundant_literal.simps(2) [simp del]

lemma check_redundant_literal_cache:
  "already_checked_redundant_literals (snd (check_redundant_literal E program t))
     = already_checked_redundant_literals t \<union> clause_hash E ` set program"
proof (induction program arbitrary: t)
  case Nil
  show ?case by simp
next
  case (Cons clause program)
  show ?case
    unfolding check_redundant_literal_Cons
    by (auto simp: Cons.IH Let_def)
qed

lemma check_redundant_literal_yield:
  "c \<in> set (fst (check_redundant_literal E program t)) \<Longrightarrow>
     c \<in> set program \<and> clause_hash E c \<notin> already_checked_redundant_literals t \<and>
     query_redundant_literal E c"
proof (induction program arbitrary: t)
  case Nil
  then show ?case by simp
next
  case (Cons clause program)
  show ?case
  proof (cases "clause_hash E clause \<in> already_checked_redundant_literals t")
    case True
    then show ?thesis using Cons.IH [of t] Cons.prems by (simp add: check_redundant_literal_Cons)
  next
    case False
    let ?t = "t\<lparr>already_checked_redundant_literals :=
                  insert (clause_hash E clause) (already_checked_redundant_literals t),
                redundant_literal_queries := clause # redundant_literal_queries t\<rparr>"
    have "c = clause \<and> query_redundant_literal E clause \<or>
          c \<in> set (fst (check_redundant_literal E program ?t))"
      using Cons.prems False
      by (auto simp: check_redundant_literal_Cons Let_def split: if_splits)
    then show ?thesis
      using False Cons.IH [of ?t] by auto
  qed
qed

lemma check_redundant_literal_distinct:
  "distinct (map (clause_hash E) (fst (check_redundant_literal E program t)))"
proof (induction program arbitrary: t)
  case Nil
  show ?case by simp
next
  case (Cons clause program)
  let ?t = "t\<lparr>already_checked_redundant_literals :=
                insert (clause_hash E clause) (already_checked_redundant_literals t),
              redundant_literal_queries := clause # redundant_literal_queries t\<rparr>"
  have "clause_hash E clause \<notin> clause_hash E ` set (fst (check_redundant_literal E program ?t))"
  proof
    assume "clause_hash E clause \<in> clause_hash E ` set (fst (check_redundant_literal E program ?t))"
    then obtain c where c: "c \<in> set (fst (check_redundant_literal E program ?t))"
      and h: "clause_hash E c = clause_hash E clause"
      by auto
    have "clause_hash E c \<notin> already_checked_redundant_literals ?t"
      using check_redundant_literal_yield [OF c] by blast
    then show False using h by simp
  qed
  then show ?case
    using Cons.IH [of t] Cons.IH [of ?t]
    by (simp add: check_redundant_literal_Cons Let_def)
qed

lemma check_redundant_literal_hit:
  "clause_hash E ` set program \<subseteq> already_checked_redundant_literals t \<Longrightarrow>
     check_redundant_literal E program t = ([], t)"
  by (induction program arbitrary: t) (simp_all add: check_redundant_literal_Cons)

lemma check_redundant_literal_once:
  "checked_once E t \<Longrightarrow> checked_once E (snd (check_redundant_literal E program t))"
proof (induction program arbitrary: t)
  case Nil
  then show ?case by simp
next
  case (Cons clause program)
  show ?case
  proof (cases "clause_hash E clause \<in> already_checked_redundant_literals t")
    case True
    then show ?thesis using Cons.IH [of t] Cons.prems by (simp add: check_redundant_literal_Cons)
  next
    case False
    let ?t = "t\<lparr>already_checked_redundant_literals :=
                  insert (clause_hash E clause) (already_checked_redundant_literals t),
                redundant_literal_queries := clause # redundant_literal_queries t\<rparr>"
    have "checked_once E ?t"
      using Cons.prems False by (auto simp: checked_once_def)
    then show ?thesis
      using False Cons.IH [of ?t] by (simp add: check_redundant_literal_Cons Let_def)
  qed
qed

lemma test_once: "checked_once E (snd (test E rules t)) = checked_once E t"
  using test_tester [of E rules t] by (simp add: checked_once_def)

lemma build_rules_tester:
  assumes "build_rules settings constrainer E t program before min_clause outcome = Inr (rules, t')"
  shows "t' = snd (check_redundant_literal E program t)"
  using assms by (auto simp: build_rules_def Let_def split: sum.splits prod.splits)

lemma loop_body_once:
  assumes "loop_body settings W constrainer E model st = Return st' \<or>
           loop_body settings W constrainer E model st = Next st'"
    and "checked_once E (tester st)"
  shows "checked_once E (tester st')"
proof -
  let ?program = "fst (generate_program W model)"
  let ?t1 = "snd (test E ?program (tester st))"
  have t1: "checked_once E ?t1" using assms(2) test_once by metis
  from assms(1) show ?thesis
  proof
    assume "loop_body settings W constrainer E model st = Return st'"
    then have "tester st' = ?t1"
      using loop_body_Return_state [of settings W constrainer E model st st']
      by (simp add: update_best_fields)
    then show ?thesis using t1 by simp
  next
    assume n: "loop_body settings W constrainer E model st = Next st'"
    then obtain r where br: "build_rules settings constrainer E ?t1 ?program
        (fst (snd (generate_program W model))) (snd (snd (generate_program W model)))
        (decide_outcome (fst (test E ?program (tester st)))) = Inr r"
      and st': "tester st' = snd r"
      by (auto simp: loop_body_unfold Let_def split: sum.splits if_splits)
    have "snd r = snd (check_redundant_literal E ?program ?t1)"
      using build_rules_tester [of settings constrainer E ?t1 ?program _ _ _ "fst r" "snd r"] br
      by simp
    then show ?thesis
      using check_redundant_literal_once [OF t1, of ?program] st' by simp
  qed
qed


lemma loop_body_cache:
  assumes "loop_body settings W constrainer E model st = Return st' \<or>
           loop_body settings W constrainer E model st = Next st'"
  shows "already_checked_redundant_literals (tester st)
           \<subseteq> already_checked_redundant_literals (tester st')"
proof -
  let ?program = "fst (generate_program W model)"
  let ?t1 = "snd (test E ?program (tester st))"
  have t1: "already_checked_redundant_literals ?t1 = already_checked_redundant_literals (tester st)"
    using test_tester [of E ?program "tester st"] by simp
  from assms show ?thesis
  proof
    assume "loop_body settings W constrainer E model st = Return st'"
    then have "tester st' = ?t1"
      using loop_body_Return_state [of settings W constrainer E model st st']
      by (simp add: update_best_fields)
    then show ?thesis using t1 by simp
  next
    assume n: "loop_body settings W constrainer E model st = Next st'"
    then obtain r where br: "build_rules settings constrainer E ?t1 ?program
        (fst (snd (generate_program W model))) (snd (snd (generate_program W model)))
        (decide_outcome (fst (test E ?program (tester st)))) = Inr r"
      and st': "tester st' = snd r"
      by (auto simp: loop_body_unfold Let_def split: sum.splits if_splits)
    have "snd r = snd (check_redundant_literal E ?program ?t1)"
      using build_rules_tester [of settings constrainer E ?t1 ?program _ _ _ "fst r" "snd r"] br
      by simp
    then show ?thesis
      using check_redundant_literal_cache [of E ?program ?t1] st' t1 by auto
  qed
qed

lemma candidate_loop_once:
  "candidate_loop fuel settings W constrainer E st = Found st' \<or>
   candidate_loop fuel settings W constrainer E st = Exhausted st'
   \<Longrightarrow>
   already_checked_redundant_literals (tester st)
     \<subseteq> already_checked_redundant_literals (tester st') \<and>
   (checked_once E (tester st) \<longrightarrow> checked_once E (tester st'))"
proof (induction fuel arbitrary: st)
  case 0
  then show ?case by simp
next
  case (Suc fuel)
  obtain m s where gm: "get_model W (solver st) = (m, s)"
    by (cases "get_model W (solver st)")
  show ?case
  proof (cases m)
    case None
    then show ?thesis using gm Suc.prems by auto
  next
    case (Some model)
    let ?st = "st\<lparr>solver := s\<rparr>"
    show ?thesis
    proof (cases "loop_body settings W constrainer E model ?st")
      case (Return st1)
      then have "st' = st1" using Suc.prems gm Some by simp
      then show ?thesis
        using loop_body_cache [of settings W constrainer E model ?st st1]
          loop_body_once [of settings W constrainer E model ?st st1] Return
        by simp
    next
      case (Next st1)
      have 1: "already_checked_redundant_literals (tester st)
                 \<subseteq> already_checked_redundant_literals (tester st1) \<and>
               (checked_once E (tester st) \<longrightarrow> checked_once E (tester st1))"
        using loop_body_cache [of settings W constrainer E model ?st st1]
          loop_body_once [of settings W constrainer E model ?st st1] Next
        by simp
      have 2: "already_checked_redundant_literals (tester st1)
                 \<subseteq> already_checked_redundant_literals (tester st') \<and>
               (checked_once E (tester st1) \<longrightarrow> checked_once E (tester st'))"
        using Suc.IH [of st1] Suc.prems gm Some Next by simp
      show ?thesis using 1 2 by blast
    next
      case (Raise e)
      then show ?thesis using gm Some Suc.prems by simp
    qed
  qed
qed

lemma size_loop_once:
  "size_loop fuel settings W constrainer E sizes st = Found st' \<or>
   size_loop fuel settings W constrainer E sizes st = Exhausted st'
   \<Longrightarrow>
   already_checked_redundant_literals (tester st)
     \<subseteq> already_checked_redundant_literals (tester st') \<and>
   (checked_once E (tester st) \<longrightarrow> checked_once E (tester st'))"
proof (induction sizes arbitrary: st)
  case Nil
  then show ?case by auto
next
  case (Cons n sizes)
  let ?st = "st\<lparr>solver := update_number_of_literals W n (solver st)\<rparr>"
  show ?case
  proof (cases "candidate_loop fuel settings W constrainer E ?st")
    case (Found st1)
    then have "st' = st1" using Cons.prems by simp
    then show ?thesis
      using candidate_loop_once [of fuel settings W constrainer E ?st st1] Found by simp
  next
    case (Exhausted st1)
    have 1: "already_checked_redundant_literals (tester st)
               \<subseteq> already_checked_redundant_literals (tester st1) \<and>
             (checked_once E (tester st) \<longrightarrow> checked_once E (tester st1))"
      using candidate_loop_once [of fuel settings W constrainer E ?st st1] Exhausted by simp
    have 2: "already_checked_redundant_literals (tester st1)
               \<subseteq> already_checked_redundant_literals (tester st') \<and>
             (checked_once E (tester st1) \<longrightarrow> checked_once E (tester st'))"
      using Cons.IH [of st1] Cons.prems Exhausted by simp
    show ?thesis using 1 2 by blast
  next
    case (Failed e)
    then show ?thesis using Cons.prems by simp
  next
    case Out_Of_Fuel
    then show ?thesis using Cons.prems by simp
  qed
qed

lemma popper_once:
  assumes "popper fuel settings W constrainer E solver0 tester0 args0 total0 = Found st' \<or>
           popper fuel settings W constrainer E solver0 tester0 args0 total0 = Exhausted st'"
    and "checked_once E tester0"
  shows "checked_once E (tester st')"
  using size_loop_once
    [of fuel settings W constrainer E "[1..max_literals settings]"
        "\<lparr>solver = solver0, tester = tester0, best_score = None, args = args0,
          total_programs = total0\<rparr>" st']
    assms
  by (simp add: popper_def)

text \<open>
  Claim C8. A clause whose hash is in the cache is skipped: it is not yielded. After a call
  the cache holds the hashes it held before and the hash of every clause of the program,
  and the clauses yielded by one call have pairwise different hashes. So once a clause was
  checked, no clause with the same hash is yielded by a later call, for the same or another
  program, in any later state of the tester (the cache only grows along the loop); and a
  program whose hashes are all cached yields nothing, leaves the tester as it is and adds
  no redundant-literal constraint. Over a run, from a new tester, the clauses that
  \<open>redundant_literal\<close> was asked for have pairwise different hashes: the check is made at
  most once for each hash.
\<close>

theorem redundant_literal_checked_once:
  "(clause_hash E clause \<in> already_checked_redundant_literals t \<longrightarrow>
      clause \<notin> set (fst (check_redundant_literal E program t))) \<and>
   already_checked_redundant_literals (snd (check_redundant_literal E program t))
     = already_checked_redundant_literals t \<union> clause_hash E ` set program \<and>
   distinct (map (clause_hash E) (fst (check_redundant_literal E program t))) \<and>
   (clause \<in> set program \<and> clause_hash E clause' = clause_hash E clause \<and>
    already_checked_redundant_literals (snd (check_redundant_literal E program t))
      \<subseteq> already_checked_redundant_literals t2 \<longrightarrow>
      clause' \<notin> set (fst (check_redundant_literal E program' t2))) \<and>
   (clause_hash E ` set program \<subseteq> already_checked_redundant_literals t \<longrightarrow>
      check_redundant_literal E program t = ([], t) \<and>
      redundant_literal_rules constrainer before min_clause rules
        (fst (check_redundant_literal E program t)) = rules) \<and>
   (checked_once E t \<longrightarrow> checked_once E (snd (check_redundant_literal E program t))) \<and>
   checked_once E (Tester_init num_pos num_neg) \<and>
   (candidate_loop fuel settings W constrainer E st = Found st' \<or>
    candidate_loop fuel settings W constrainer E st = Exhausted st' \<longrightarrow>
      already_checked_redundant_literals (tester st)
        \<subseteq> already_checked_redundant_literals (tester st')) \<and>
   (popper fuel settings W constrainer E solver0 (Tester_init num_pos num_neg) args0 total0
      = Found st' \<or>
    popper fuel settings W constrainer E solver0 (Tester_init num_pos num_neg) args0 total0
      = Exhausted st' \<longrightarrow>
      checked_once E (tester st'))"
proof -
  have 1: "clause_hash E clause \<in> already_checked_redundant_literals t \<longrightarrow>
      clause \<notin> set (fst (check_redundant_literal E program t))"
    using check_redundant_literal_yield [of clause E program t] by blast
  have 4: "clause \<in> set program \<and> clause_hash E clause' = clause_hash E clause \<and>
      already_checked_redundant_literals (snd (check_redundant_literal E program t))
        \<subseteq> already_checked_redundant_literals t2 \<longrightarrow>
      clause' \<notin> set (fst (check_redundant_literal E program' t2))"
  proof (intro impI)
    assume a: "clause \<in> set program \<and> clause_hash E clause' = clause_hash E clause \<and>
      already_checked_redundant_literals (snd (check_redundant_literal E program t))
        \<subseteq> already_checked_redundant_literals t2"
    then have "clause_hash E clause' \<in> already_checked_redundant_literals t2"
      using check_redundant_literal_cache [of E program t] by auto
    then show "clause' \<notin> set (fst (check_redundant_literal E program' t2))"
      using check_redundant_literal_yield [of clause' E program' t2] by blast
  qed
  have 5: "clause_hash E ` set program \<subseteq> already_checked_redundant_literals t \<longrightarrow>
      check_redundant_literal E program t = ([], t) \<and>
      redundant_literal_rules constrainer before min_clause rules
        (fst (check_redundant_literal E program t)) = rules"
    using check_redundant_literal_hit [of E program t]
    by (simp add: redundant_literal_rules_def)
  have 6: "checked_once E t \<longrightarrow> checked_once E (snd (check_redundant_literal E program t))"
    using check_redundant_literal_once by blast
  have 7: "checked_once E (Tester_init num_pos num_neg)"
    by (simp add: checked_once_def Tester_init_def)
  have 8: "candidate_loop fuel settings W constrainer E st = Found st' \<or>
      candidate_loop fuel settings W constrainer E st = Exhausted st' \<longrightarrow>
      already_checked_redundant_literals (tester st)
        \<subseteq> already_checked_redundant_literals (tester st')"
    using candidate_loop_once [of fuel settings W constrainer E st st'] by blast
  have 9: "popper fuel settings W constrainer E solver0 (Tester_init num_pos num_neg) args0 total0
        = Found st' \<or>
      popper fuel settings W constrainer E solver0 (Tester_init num_pos num_neg) args0 total0
        = Exhausted st' \<longrightarrow>
      checked_once E (tester st')"
    using popper_once [of fuel settings W constrainer E solver0 "Tester_init num_pos num_neg"
        args0 total0 st'] 7
    by blast
  show ?thesis
    using 1 check_redundant_literal_cache [of E program t]
      check_redundant_literal_distinct [of E program t] 4 5 6 7 8 9
    by blast
qed

lemma example_Tester_init: "Tester_init 2 1 = example_tester"
  by (simp add: Tester_init_def example_tester_def upt_rec)

lemma example_first_check:
  "check_redundant_literal example_evaluator [(lit_f, []), (lit_f, [lit_g, lit_lt])] example_tester
     = ([(lit_f, [lit_g, lit_lt])],
        example_tester\<lparr>already_checked_redundant_literals :=
                          {(lit_f, [lit_g, lit_lt]), (lit_f, [])},
                        redundant_literal_queries := [(lit_f, [lit_g, lit_lt]), (lit_f, [])]\<rparr>)"
  by (simp add: check_redundant_literal.simps example_evaluator_def example_tester_def Let_def)


lemma example_run_once:
  "\<exists>st'. popper 2 example_settings example_world example_constrainer example_evaluator
      [[(lit_f, []), (lit_f, [lit_g, lit_lt])]]
      example_tester None 0 = Exhausted st' \<and>
     redundant_literal_queries (tester st') = [(lit_f, [lit_g, lit_lt]), (lit_f, [])]"
  by (simp add: popper_def upto_rec1 numeral_2_eq_2 loop_body_unfold test_unfold
      test_covered_def success_set_def check_redundant_literal.simps
      build_rules_def outcome_rules_def redundant_literal_rules_def set_update_def
      lookup_constraints_def OUTCOME_TO_CONSTRAINTS_def remap_negative_def
      check_redundant_clause_def is_non_functional_def update_best_def Let_def
      example_world_def example_evaluator_def example_constrainer_def example_settings_def
      example_tester_def lit_f_def lit_g_def lit_lt_def)


lemma example_run_once_init:
  "\<exists>st'. popper 2 example_settings example_world example_constrainer example_evaluator
      [[(lit_f, []), (lit_f, [lit_g, lit_lt])]]
      (Tester_init 2 1) None 0 = Exhausted st' \<and>
     redundant_literal_queries (tester st') = [(lit_f, [lit_g, lit_lt]), (lit_f, [])]"
  unfolding example_Tester_init by (rule example_run_once)

theorem redundant_literal_checked_once_witness:
  "(\<exists>st'. popper 2 example_settings example_world example_constrainer example_evaluator
      [[(lit_f, []), (lit_f, [lit_g, lit_lt])]] (Tester_init 2 1) None 0 = Exhausted st' \<and>
     redundant_literal_queries (tester st') = [(lit_f, [lit_g, lit_lt]), (lit_f, [])] \<and>
     checked_once example_evaluator (tester st')) \<and>
   fst (check_redundant_literal example_evaluator [(lit_f, []), (lit_f, [lit_g, lit_lt])]
          example_tester) = [(lit_f, [lit_g, lit_lt])] \<and>
   fst (check_redundant_literal example_evaluator [(lit_f, [lit_g, lit_lt]), (lit_f, [])]
          (snd (check_redundant_literal example_evaluator
                  [(lit_f, []), (lit_f, [lit_g, lit_lt])] example_tester))) = []"
proof -
  let ?p1 = "[(lit_f, []), (lit_f, [lit_g, lit_lt])]"
  let ?p2 = "[(lit_f, [lit_g, lit_lt]), (lit_f, [])]"
  let ?t1 = "snd (check_redundant_literal example_evaluator ?p1 example_tester)"
  obtain st' where r1:
    "popper 2 example_settings example_world example_constrainer example_evaluator [?p1]
       (Tester_init 2 1) None 0 = Exhausted st'"
    and r2: "redundant_literal_queries (tester st') = [(lit_f, [lit_g, lit_lt]), (lit_f, [])]"
    using example_run_once_init by (elim exE conjE)
  have 1: "checked_once example_evaluator (tester st')"
    by (rule redundant_literal_checked_once
        [where E = example_evaluator and fuel = 2 and settings = example_settings
           and W = example_world and constrainer = example_constrainer
           and ?solver0.0 = "[?p1]" and num_pos = 2 and num_neg = 1 and ?args0.0 = None
           and ?total0.0 = 0 and st' = st',
         THEN conjunct2, THEN conjunct2, THEN conjunct2, THEN conjunct2, THEN conjunct2,
         THEN conjunct2, THEN conjunct2, THEN conjunct2, THEN mp, OF disjI2, OF r1])
  have s: "clause_hash example_evaluator ` set ?p2 \<subseteq> already_checked_redundant_literals ?t1"
    unfolding example_first_check by (simp add: example_evaluator_def)
  have 2: "check_redundant_literal example_evaluator ?p2 ?t1 = ([], ?t1)"
    by (rule redundant_literal_checked_once
        [where E = example_evaluator and program = ?p2 and t = ?t1,
         THEN conjunct2, THEN conjunct2, THEN conjunct2, THEN conjunct2, THEN conjunct1,
         THEN mp, OF s, THEN conjunct1])
  have 3: "fst (check_redundant_literal example_evaluator ?p1 example_tester)
             = [(lit_f, [lit_g, lit_lt])]"
    unfolding example_first_check by (rule fst_conv)
  have 4: "fst (check_redundant_literal example_evaluator ?p2 ?t1) = []"
    unfolding 2 by (rule fst_conv)
  show ?thesis
  proof (intro conjI)
    show "\<exists>st'. popper 2 example_settings example_world example_constrainer example_evaluator
        [?p1] (Tester_init 2 1) None 0 = Exhausted st' \<and>
      redundant_literal_queries (tester st') = [(lit_f, [lit_g, lit_lt]), (lit_f, [])] \<and>
      checked_once example_evaluator (tester st')"
      by (rule exI [of _ st']) (intro conjI r1 r2 1)
    show "fst (check_redundant_literal example_evaluator ?p1 example_tester)
            = [(lit_f, [lit_g, lit_lt])]"
      by (rule 3)
    show "fst (check_redundant_literal example_evaluator ?p2 ?t1) = []"
      by (rule 4)
  qed
qed

end
